theory Spec2Isabelle
  imports Main "HOL-Library.Word" "HOL-Library.Signed_Division"
begin

section \<open>Strings and character codes\<close>

text \<open>
  A JavaScript string is a sequence of 16-bit code units. Numbers of the program are
  modelled on the integers: character codes and line indices as \<open>nat\<close>, pixel
  quantities and the scale factor as \<open>int\<close>.
\<close>

type_synonym jsstring = "16 word list"

definition isLeadSurrogate :: "16 word \<Rightarrow> bool" where
  "isLeadSurrogate u = (0xD800 \<le> u \<and> u \<le> 0xDBFF)"

definition isTrailSurrogate :: "16 word \<Rightarrow> bool" where
  "isTrailSurrogate u = (0xDC00 \<le> u \<and> u \<le> 0xDFFF)"

text \<open>
  \<open>Array.from(str)\<close> runs the string iterator: at each position it yields the string
  of one code point, which is two code units long when a lead surrogate is directly
  followed by a trail surrogate, and one code unit long otherwise (a lone surrogate is
  yielded by itself). An element is kept as its first unit and its optional second unit.
\<close>

type_synonym jselem = "16 word \<times> 16 word option"

fun Array_from :: "jsstring \<Rightarrow> jselem list" where
  "Array_from [] = []"
| "Array_from [u] = [(u, None)]"
| "Array_from (u # v # us) =
     (if isLeadSurrogate u \<and> isTrailSurrogate v
      then (u, Some v) # Array_from us
      else (u, None) # Array_from (v # us))"

text \<open>\<open>i.charCodeAt(0)\<close>: the first code unit of the element, as a number.\<close>

definition charCodeAt0 :: "jselem \<Rightarrow> nat" where
  "charCodeAt0 e = unat (fst e)"

text \<open>\<open>toCharCodeArray: Array.from(str).map(i => i.charCodeAt(0))\<close>\<close>

definition toCharCodeArray :: "jsstring \<Rightarrow> nat list" where
  "toCharCodeArray str = map charCodeAt0 (Array_from str)"

text \<open>
  \<open>String.fromCharCode\<close> takes each number modulo \<open>2^16\<close> and yields one code unit
  per argument.
\<close>

definition fromCharCode :: "nat list \<Rightarrow> jsstring" where
  "fromCharCode cs = map word_of_nat cs"

text \<open>
  The code point sequence of a string as the specification words it: the Unicode scalar
  values decoded from the string, one entry per code point. A surrogate pair decodes to
  one supplementary code point; any other unit stands for itself.
\<close>

fun codePoints :: "jsstring \<Rightarrow> nat list" where
  "codePoints [] = []"
| "codePoints [u] = [unat u]"
| "codePoints (u # v # us) =
     (if isLeadSurrogate u \<and> isTrailSurrogate v
      then (0x10000 + (unat u - 0xD800) * 0x400 + (unat v - 0xDC00)) # codePoints us
      else unat u # codePoints (v # us))"

text \<open>The lead surrogate of a supplementary code point; a code point of the Basic
  Multilingual Plane is its own single code unit.\<close>

definition firstUnit :: "nat \<Rightarrow> nat" where
  "firstUnit cp = (if cp < 0x10000 then cp else 0xD800 + (cp - 0x10000) div 0x400)"

section \<open>The atlas and glyph metrics\<close>

text \<open>
  The configuration fields of \<open>png_font\<close>. \<open>charMap\<close> is \<open>None\<close> when the
  property is falsy (\<open>null\<close>, \<open>undefined\<close>, or the empty string) and otherwise
  holds the sequence of characters of the map.
\<close>

record atlas =
  charWidth :: int
  charHeight :: int
  ANSICharWidth :: int
  charsInRow :: int
  charMap :: "jsstring option"

text \<open>The values \<open>setup\<close> stores when called with its default arguments.\<close>

definition setupDefaults :: atlas where
  "setupDefaults =
     \<lparr>charWidth = 16, charHeight = 16, ANSICharWidth = 8, charsInRow = 256, charMap = None\<rparr>"

definition getCharWidthFromCharCode :: "atlas \<Rightarrow> nat \<Rightarrow> int" where
  "getCharWidthFromCharCode a chr =
     (if chr < 32 * 256 then ANSICharWidth a else charWidth a)"

text \<open>The accumulation loop of \<open>getTextWidth\<close>.\<close>

fun textWidthLoop :: "atlas \<Rightarrow> nat list \<Rightarrow> int \<Rightarrow> int" where
  "textWidthLoop a [] textWidth = textWidth"
| "textWidthLoop a (c # cs) textWidth =
     textWidthLoop a cs (textWidth + getCharWidthFromCharCode a c)"

definition getTextWidth :: "atlas \<Rightarrow> jsstring \<Rightarrow> int option \<Rightarrow> int" where
  "getTextWidth a text size_arg =
     (let sz = (case size_arg of None \<Rightarrow> 1 | Some s \<Rightarrow> s)
      in textWidthLoop a (toCharCodeArray text) 0 * sz)"

definition getHeight :: "atlas \<Rightarrow> int \<Rightarrow> int" where
  "getHeight a sz = sz * charHeight a"

text \<open>\<open>charMap.indexOf(chr)\<close>: the first position of the character, or \<open>-1\<close>.\<close>

fun indexOfFrom :: "jsstring \<Rightarrow> 16 word \<Rightarrow> int \<Rightarrow> int" where
  "indexOfFrom [] chr k = - 1"
| "indexOfFrom (y # ys) chr k = (if y = chr then k else indexOfFrom ys chr (k + 1))"

definition indexOf :: "jsstring \<Rightarrow> 16 word \<Rightarrow> int" where
  "indexOf cm chr = indexOfFrom cm chr 0"

text \<open>
  \<open>getCharPosition\<close>. The remainder \<open>%\<close> of JavaScript truncates towards zero
  (\<open>smod\<close>), and \<open>Math.floor(index / charsInRow)\<close> is the floored quotient
  (\<open>div\<close>). With \<open>charsInRow = 0\<close> the program computes \<open>NaN\<close> and infinities,
  which the integers do not have: the model is meant for \<open>charsInRow \<noteq> 0\<close>.
\<close>

definition getCharPosition :: "atlas \<Rightarrow> nat \<Rightarrow> int \<times> int" where
  "getCharPosition a charCode =
     (let chr = (word_of_nat charCode :: 16 word);
          index = (case charMap a of Some cm \<Rightarrow> indexOf cm chr | None \<Rightarrow> int charCode)
      in if index = - 1 then (0, 0)
         else (charWidth a * (index smod charsInRow a), charHeight a * (index div charsInRow a)))"

section \<open>Word wrapping\<close>

text \<open>
  The state \<open>png_font\<close> keeps between calls: the text wrapped last and its character
  codes, and the calls made so far on the drawing context \<open>ctx\<close>. \<open>textDrawn\<close>
  starts as an empty array, which is not a string and so differs from every text under
  \<open>!==\<close>: it is \<open>None\<close> here.
\<close>

datatype jsval = Undefined | Null | JSFalse | JSTrue | JSString string

datatype canvas_op =
    DrawFontImage int int int int int int int int
  | SetFillStyle jsval
  | SetCompositeOperation string
  | FillRect int int int int
  | DrawCanvas canvas int int
  | DrawCanvasSized canvas int int int int
  | AssignCanvasWidth "int option"
  | AssignCtxWidth "int option"
  | AssignCanvasHeight "int option"
  | AssignCtxHeight "int option"
and canvas = Canvas (canvas_width: int) (canvas_height: int) (calls: "canvas_op list")

record engine =
  textDrawn :: "jsstring option"
  textUTF8Array :: "nat list"
  ctx :: "canvas_op list"

definition fresh :: engine where
  "fresh = \<lparr>textDrawn = None, textUTF8Array = [], ctx = []\<rparr>"

text \<open>The wrap box \<open>[maxWidth, maxHeight, reserved]\<close>.\<close>

type_synonym box = "int \<times> int \<times> int"

definition box0 :: "box \<Rightarrow> int" where
  "box0 wrap = fst wrap"

definition box1 :: "box \<Rightarrow> int" where
  "box1 wrap = fst (snd wrap)"

text \<open>
  The two shapes of the array \<open>wrapText\<close> returns: \<open>[wrapped2DArray, missing]\<close> on an
  early return and \<open>[wrapped2DArray, missing, maxWidth, (line + 1) * getHeight(size)]\<close>
  at the end of the loop.
\<close>

datatype wrap_result =
    Early (lines: "nat list list") (missing: jsstring)
  | Full (lines: "nat list list") (missing: jsstring) (maxLineWidth: int) (usedHeight: int)

text \<open>
  \<open>TypeError\<close>: \<open>wrapped2DArray[line]\<close> is \<open>undefined\<close> and \<open>.concat\<close> is called on
  it. \<open>SparseStore\<close>: a store past the end of \<open>wrapped2DArray\<close>, which would leave
  holes in the array; the model keeps the lines dense and stops there.
\<close>

datatype wrap_error = TypeError | SparseStore

definition missingText :: "jsstring \<Rightarrow> nat list list \<Rightarrow> jsstring" where
  "missingText text utf82DArray =
     (let flatUtf8Array = foldl (@) [] utf82DArray;
          doneText = fromCharCode flatUtf8Array
      in drop (length doneText) text)"

record wrap_state =
  wrapped2DArray :: "nat list list"
  width :: int
  line :: nat
  word :: "nat list"
  wordWidth :: int
  maxWidth :: int

definition initialState :: wrap_state where
  "initialState =
     \<lparr>wrapped2DArray = [[]], width = 0, line = 0, word = [], wordWidth = 0, maxWidth = 0\<rparr>"

text \<open>\<open>wrapped2DArray[line] = wrapped2DArray[line].concat(word).concat([32])\<close>\<close>

definition addWord :: "nat list list \<Rightarrow> nat \<Rightarrow> nat list \<Rightarrow> wrap_error + nat list list" where
  "addWord arr l w =
     (if l < length arr then Inr (arr[l := (arr ! l) @ w @ [32]]) else Inl TypeError)"

text \<open>\<open>wrapped2DArray.push([]); ... wrapped2DArray[line] = []\<close>\<close>

definition pushLine :: "nat list list \<Rightarrow> nat \<Rightarrow> wrap_error + nat list list" where
  "pushLine arr l =
     (if l < length (arr @ [[]]) then Inr ((arr @ [[]])[l := []]) else Inl SparseStore)"

datatype step = Return wrap_result | Continue wrap_state | Throw wrap_error

text \<open>
  The body of the loop at a delimiter: a space, a line feed (\<open>isLF\<close>) or the index one
  past the end, where \<open>textUTF8Array[i]\<close> is \<open>undefined\<close>.
\<close>

definition delimiter :: "atlas \<Rightarrow> jsstring \<Rightarrow> box \<Rightarrow> int \<Rightarrow> bool \<Rightarrow> wrap_state \<Rightarrow> step" where
  "delimiter a text wrap sz isLF s =
     (let spaceWidth = 8 * sz in
      if width s + wordWidth s < box0 wrap then
        (case addWord (wrapped2DArray s) (line s) (word s) of
           Inl e \<Rightarrow> Throw e
         | Inr arr1 \<Rightarrow>
             if isLF then
               (let l1 = line s + 1 in
                if int l1 * 16 * sz \<ge> box1 wrap then Return (Early arr1 (missingText text arr1))
                else
                  (case pushLine arr1 l1 of
                     Inl e \<Rightarrow> Throw e
                   | Inr arr2 \<Rightarrow>
                       Continue (s\<lparr>wrapped2DArray := arr2, width := wordWidth s + spaceWidth,
                                   line := l1, word := [], wordWidth := 0\<rparr>)))
             else
               Continue (s\<lparr>wrapped2DArray := arr1, width := width s + wordWidth s + spaceWidth,
                           word := [], wordWidth := 0\<rparr>))
      else
        (let l1 = line s + 1 in
         if (int l1 + 1) * charWidth a * sz \<ge> box1 wrap
         then Return (Early (wrapped2DArray s) (missingText text (wrapped2DArray s)))
         else
           (case pushLine (wrapped2DArray s) l1 of
              Inl e \<Rightarrow> Throw e
            | Inr arr1 \<Rightarrow>
                (case addWord arr1 l1 (word s) of
                   Inl e \<Rightarrow> Throw e
                 | Inr arr2 \<Rightarrow>
                     Continue (s\<lparr>wrapped2DArray := arr2, width := wordWidth s + spaceWidth,
                                 line := l1, word := [], wordWidth := 0\<rparr>)))))"

text \<open>The end of every iteration: \<open>if (width > maxWidth) maxWidth = width\<close>.\<close>

definition storeMaxWidth :: "wrap_state \<Rightarrow> wrap_state" where
  "storeMaxWidth s = (if width s > maxWidth s then s\<lparr>maxWidth := width s\<rparr> else s)"

text \<open>
  The loop \<open>for (i = 0; i <= textUTF8Array.length; i++)\<close>, over the codes still to
  read; the empty list is the last iteration, \<open>i = textUTF8Array.length\<close>.
\<close>

fun wrapLoop :: "atlas \<Rightarrow> jsstring \<Rightarrow> box \<Rightarrow> int \<Rightarrow> nat list \<Rightarrow> wrap_state
    \<Rightarrow> wrap_error + wrap_result" where
  "wrapLoop a text wrap sz [] s =
     (case delimiter a text wrap sz False s of
        Throw e \<Rightarrow> Inl e
      | Return r \<Rightarrow> Inr r
      | Continue s1 \<Rightarrow>
          (let s2 = storeMaxWidth s1
           in Inr (Full (wrapped2DArray s2) [] (maxWidth s2)
                    ((int (line s2) + 1) * getHeight a sz))))"
| "wrapLoop a text wrap sz (c # cs) s =
     (if c \<noteq> 32 \<and> c \<noteq> 10 then
        wrapLoop a text wrap sz cs
          (storeMaxWidth (s\<lparr>wordWidth := wordWidth s + getCharWidthFromCharCode a c * sz,
                            word := word s @ [c]\<rparr>))
      else
        (case delimiter a text wrap sz (c = 10) s of
           Throw e \<Rightarrow> Inl e
         | Return r \<Rightarrow> Inr r
         | Continue s1 \<Rightarrow> wrapLoop a text wrap sz cs (storeMaxWidth s1)))"

text \<open>The memoization at the head of \<open>wrapText\<close>.\<close>

definition remember :: "engine \<Rightarrow> jsstring \<Rightarrow> engine" where
  "remember e text =
     (if textDrawn e \<noteq> Some text
      then e\<lparr>textUTF8Array := toCharCodeArray text, textDrawn := Some text\<rparr>
      else e)"

definition wrapText :: "atlas \<Rightarrow> engine \<Rightarrow> jsstring \<Rightarrow> box \<Rightarrow> int
    \<Rightarrow> (wrap_error + wrap_result) \<times> engine" where
  "wrapText a e text wrap sz =
     (let e1 = remember e text
      in (wrapLoop a text wrap sz (textUTF8Array e1) initialState, e1))"

text \<open>A sequence of \<open>wrapText\<close> calls on one engine; the results are dropped.\<close>

fun wrapCalls :: "atlas \<Rightarrow> engine \<Rightarrow> (jsstring \<times> box \<times> int) list \<Rightarrow> engine" where
  "wrapCalls a e [] = e"
| "wrapCalls a e ((text, wrap, sz) # rest) =
     wrapCalls a (snd (wrapText a e text wrap sz)) rest"

section \<open>Compositing\<close>

text \<open>
  A drawing context is the list of the calls made on it, in order; a canvas is its size
  and the calls on its context. \<open>createBufferCanvas\<close> also switches image smoothing
  off on every buffer, which is the same for all buffers and is not recorded.
\<close>

definition createBufferCanvas :: "int \<Rightarrow> int \<Rightarrow> canvas" where
  "createBufferCanvas w h = Canvas w h []"

definition js_typeof :: "jsval \<Rightarrow> string" where
  "js_typeof v =
     (case v of Undefined \<Rightarrow> ''undefined'' | Null \<Rightarrow> ''object'' | JSFalse \<Rightarrow> ''boolean''
      | JSTrue \<Rightarrow> ''boolean'' | JSString x \<Rightarrow> ''string'')"

definition truthy :: "jsval \<Rightarrow> bool" where
  "truthy v =
     (case v of Undefined \<Rightarrow> False | Null \<Rightarrow> False | JSFalse \<Rightarrow> False
      | JSTrue \<Rightarrow> True | JSString x \<Rightarrow> x \<noteq> [])"

definition drawChr :: "atlas \<Rightarrow> canvas_op list \<Rightarrow> nat \<Rightarrow> int \<times> int \<Rightarrow> canvas_op list \<times> int" where
  "drawChr a cx chr pos =
     (let (xchar, ychar) = getCharPosition a chr;
          cw = getCharWidthFromCharCode a chr
      in (cx @ [DrawFontImage xchar ychar (charWidth a) (charHeight a)
                  (fst pos) (snd pos) (charWidth a) (charHeight a)], cw))"

text \<open>The glyph loop of \<open>drawTextCanvas\<close>, with \<open>chrPos\<close> and \<open>charTotalWidth\<close>.\<close>

fun drawChars :: "atlas \<Rightarrow> canvas_op list \<Rightarrow> nat list \<Rightarrow> int \<times> int \<Rightarrow> int
    \<Rightarrow> canvas_op list \<times> int" where
  "drawChars a bx [] chrPos charTotalWidth = (bx, charTotalWidth)"
| "drawChars a bx (c # cs) chrPos charTotalWidth =
     (let (bx1, cw) = drawChr a bx c chrPos
      in drawChars a bx1 cs (fst chrPos + cw, snd chrPos) (charTotalWidth + cw))"

text \<open>The guard of the tint step, \<open>typeof color !== 'undefined' || color !== null\<close>.\<close>

definition tintGuard :: "jsval \<Rightarrow> bool" where
  "tintGuard color = (js_typeof color \<noteq> ''undefined'' \<or> color \<noteq> Null)"

text \<open>The buffer of \<open>drawTextCanvas\<close> when it is drawn: glyphs, then the tint.\<close>

definition glyphBuffer :: "atlas \<Rightarrow> nat list \<Rightarrow> jsval \<Rightarrow> canvas \<times> int" where
  "glyphBuffer a utf8Array color =
     (let w = charWidth a * int (length utf8Array);
          h = charHeight a;
          (bx, charTotalWidth) = drawChars a (calls (createBufferCanvas w h)) utf8Array (0, 0) 0;
          bx1 = (if tintGuard color
                 then bx @ [SetFillStyle color, SetCompositeOperation ''source-in'', FillRect 0 0 w h]
                 else bx)
      in (Canvas w h bx1, charTotalWidth))"

definition drawTextCanvas :: "atlas \<Rightarrow> canvas_op list \<Rightarrow> nat list \<Rightarrow> int \<times> int \<Rightarrow> jsval
    \<Rightarrow> int option \<Rightarrow> canvas_op list \<times> int" where
  "drawTextCanvas a cx utf8Array pos color size_arg =
     (let (buffer, charTotalWidth) = glyphBuffer a utf8Array color;
          w = canvas_width buffer;
          h = canvas_height buffer
      in case (if size_arg = Some 1 then None else size_arg) of
           None \<Rightarrow> (cx @ [DrawCanvas buffer (fst pos) (snd pos)], charTotalWidth)
         | Some sz \<Rightarrow>
             (let bufferSize = createBufferCanvas (w * sz) (h * sz);
                  bSx = calls bufferSize @ [DrawCanvasSized buffer 0 0 (w * sz) (h * sz)]
              in (cx @ [DrawCanvas (Canvas (w * sz) (h * sz) bSx) (fst pos) (snd pos)],
                  charTotalWidth)))"

definition drawTextShadow :: "atlas \<Rightarrow> nat list \<Rightarrow> jsval \<Rightarrow> int option \<Rightarrow> jsval
    \<Rightarrow> canvas \<times> int" where
  "drawTextShadow a utf8Array color size_arg shadowcolor =
     (let sz = (case size_arg of None \<Rightarrow> 1 | Some x \<Rightarrow> x);
          w = charWidth a * int (length utf8Array) * sz;
          h = charHeight a * sz;
          buffer = createBufferCanvas (w + 1) (h + 1);
          (bx1, shadowWidth) = drawTextCanvas a (calls buffer) utf8Array (sz, sz) shadowcolor (Some sz);
          (bx2, charTotalWidth) = drawTextCanvas a bx1 utf8Array (0, 0) color (Some sz)
      in (Canvas (w + 1) (h + 1) bx2, charTotalWidth + sz))"

text \<open>Where a \<open>drawImage\<close> of a canvas puts it.\<close>

fun placedAt :: "canvas_op \<Rightarrow> (int \<times> int) option" where
  "placedAt (DrawCanvas c x y) = Some (x, y)"
| "placedAt (DrawCanvasSized c x y w h) = Some (x, y)"
| "placedAt other = None"

section \<open>The entry point\<close>

text \<open>
  \<open>text.split(/\r|\r\n|\n/)\<close>: the alternatives are tried in order, so every carriage
  return and every line feed is a separator by itself.
\<close>

fun splitLines :: "jsstring \<Rightarrow> jsstring \<Rightarrow> jsstring list" where
  "splitLines [] cur = [cur]"
| "splitLines (u # us) cur =
     (if u = 0x0D \<or> u = 0x0A then cur # splitLines us [] else splitLines us (cur @ [u]))"

fun longestLineLoop :: "jsstring list \<Rightarrow> int \<Rightarrow> int" where
  "longestLineLoop [] longestLine = longestLine"
| "longestLineLoop (l # ls) longestLine =
     longestLineLoop ls (if int (length l) > longestLine then int (length l) else longestLine)"

definition getWrapFromText :: "atlas \<Rightarrow> jsstring \<Rightarrow> int \<Rightarrow> int \<times> int \<Rightarrow> box" where
  "getWrapFromText a text sz pos =
     (let ls = splitLines text [];
          linesCount = int (length ls);
          longestLine = longestLineLoop ls 0
      in ((longestLine * sz * charWidth a) + fst pos, (linesCount * sz * charWidth a) + snd pos, 0))"

text \<open>
  The \<open>wrap\<close> argument of \<open>drawText\<close>: \<open>undefined\<close> or \<open>null\<close>; the string
  \<open>'nowrap'\<close> or another falsy value; or a box.
\<close>

datatype wrap_arg = WrapUnset | NoWrap | WrapBox box

text \<open>
  The line loop of \<open>drawText\<close>. Without a shadow the line is drawn straight on
  \<open>ctx\<close>; with one, the buffer of \<open>drawTextShadow\<close> is drawn.
\<close>

fun drawLines :: "atlas \<Rightarrow> canvas_op list \<Rightarrow> nat list list \<Rightarrow> nat \<Rightarrow> int \<times> int \<Rightarrow> jsval
    \<Rightarrow> int \<Rightarrow> jsval \<Rightarrow> canvas_op list" where
  "drawLines a cx [] i pos color sz shadow = cx"
| "drawLines a cx (lineArray # rest) i pos color sz shadow =
     (if \<not> truthy shadow then
        drawLines a (fst (drawTextCanvas a cx lineArray (fst pos, snd pos + int i * 16 * sz)
                            color (Some sz)))
          rest (i + 1) pos color sz shadow
      else
        (let buffer = fst (drawTextShadow a lineArray color (Some sz) shadow)
         in drawLines a (cx @ [DrawCanvas buffer (fst pos) (snd pos + int i * getHeight a sz)])
              rest (i + 1) pos color sz shadow))"

text \<open>
  \<open>drawText\<close>. \<open>surface\<close> is what \<open>ctx.canvas.width\<close> and \<open>ctx.canvas.height\<close> read
  when the call starts. After an early return of \<open>wrapText\<close> the names \<open>minWidth\<close>
  and \<open>minHeight\<close> are \<open>undefined\<close>, and what is assigned to the canvas is \<open>NaN\<close>:
  \<open>None\<close> here.
\<close>

definition tighten :: "canvas_op list \<Rightarrow> int option \<Rightarrow> int option \<Rightarrow> int \<Rightarrow> bool \<Rightarrow> canvas_op list" where
  "tighten cx minWidth minHeight sz shadowed =
     (if shadowed then
        cx @ [AssignCanvasWidth (map_option (\<lambda>v. v + sz * 2) minWidth),
              AssignCtxWidth (map_option (\<lambda>v. v + sz * 2) minWidth),
              AssignCanvasHeight (map_option (\<lambda>v. v + sz * 2) minHeight),
              AssignCtxHeight (map_option (\<lambda>v. v + sz * 2) minHeight)]
      else
        cx @ [AssignCanvasWidth minWidth, AssignCtxWidth minWidth,
              AssignCanvasHeight minHeight, AssignCtxHeight minHeight])"

text \<open>The defaults of the \<open>wrap\<close> argument.\<close>

definition resolveWrap :: "atlas \<Rightarrow> int \<times> int \<Rightarrow> jsstring \<Rightarrow> int \<Rightarrow> int \<times> int \<Rightarrow> wrap_arg \<Rightarrow> box" where
  "resolveWrap a surface text sz pos wrap_arg =
     (case wrap_arg of
        WrapUnset \<Rightarrow> (fst surface - fst pos, snd surface - snd pos, 0)
      | NoWrap \<Rightarrow> getWrapFromText a text sz pos
      | WrapBox b \<Rightarrow> b)"

definition drawText :: "atlas \<Rightarrow> engine \<Rightarrow> int \<times> int \<Rightarrow> jsstring \<Rightarrow> int \<times> int \<Rightarrow> jsval
    \<Rightarrow> int option \<Rightarrow> jsval \<Rightarrow> wrap_arg \<Rightarrow> bool \<Rightarrow> (wrap_error + jsstring) \<times> engine" where
  "drawText a e surface text pos color size_arg shadow_arg wrap_arg tightenCanvas =
     (let sz = (case size_arg of None \<Rightarrow> 1 | Some x \<Rightarrow> x);
          shadow = (if shadow_arg = Undefined \<or> shadow_arg = Null then JSFalse else shadow_arg);
          wrap = resolveWrap a surface text sz pos wrap_arg;
          (res, e1) = wrapText a e text wrap sz
      in case res of
           Inl err \<Rightarrow> (Inl err, e1)
         | Inr r \<Rightarrow>
             (let minWidth = (case r of Early ls m \<Rightarrow> None | Full ls m mw uh \<Rightarrow> Some mw);
                  minHeight = (case r of Early ls m \<Rightarrow> None | Full ls m mw uh \<Rightarrow> Some uh);
                  cx1 = (if tightenCanvas
                         then tighten (ctx e1) minWidth minHeight sz (truthy shadow)
                         else ctx e1);
                  cx2 = drawLines a cx1 (lines r) 0 pos color sz shadow
              in (Inr (missing r), e1\<lparr>ctx := cx2\<rparr>)))"

text \<open>
  The width the wrapper has summed up for the first word when it meets the first
  delimiter of the text.
\<close>

definition firstWordWidth :: "atlas \<Rightarrow> int \<Rightarrow> nat list \<Rightarrow> int" where
  "firstWordWidth a sz cs =
     sum_list (map (\<lambda>c. getCharWidthFromCharCode a c * sz) (takeWhile (\<lambda>c. c \<noteq> 32 \<and> c \<noteq> 10) cs))"

text \<open>A lead surrogate directly followed by a trail surrogate somewhere in the string.\<close>

fun hasSurrogatePair :: "jsstring \<Rightarrow> bool" where
  "hasSurrogatePair [] = False"
| "hasSurrogatePair [u] = False"
| "hasSurrogatePair (u # v # us) =
     ((isLeadSurrogate u \<and> isTrailSurrogate v) \<or> hasSurrogatePair (v # us))"

text \<open>How the wrapper renders a consumed character: a line feed as the space it appends.\<close>

definition placedCode :: "nat \<Rightarrow> nat" where
  "placedCode c = (if c = 10 then 32 else c)"

definition placedUnit :: "16 word \<Rightarrow> 16 word" where
  "placedUnit u = (if u = 0x0A then 0x20 else u)"

text \<open>Whether an iteration of the loop ends in one of the two early returns.\<close>

fun stopsEarly :: "step \<Rightarrow> bool" where
  "stopsEarly (Return r) = True"
| "stopsEarly (Continue s) = False"
| "stopsEarly (Throw e) = False"

text \<open>The placements of the canvases drawn on a context, in order.\<close>

definition placements :: "canvas_op list \<Rightarrow> (int \<times> int) list" where
  "placements cx = List.map_filter placedAt cx"

text \<open>The memo is sound when the stored codes are those of the stored text.\<close>

definition memoSound :: "engine \<Rightarrow> bool" where
  "memoSound e = (case textDrawn e of None \<Rightarrow> True | Some t \<Rightarrow> textUTF8Array e = toCharCodeArray t)"

text \<open>
  Sample texts: \<open>"hello world"\<close>, \<open>"hello"\<close>, U+1F600 followed by \<open>" b"\<close>, and
  \<open>"a"\<close>, a line feed, \<open>"b"\<close>.
\<close>

definition helloWorld :: jsstring where
  "helloWorld = [0x68, 0x65, 0x6C, 0x6C, 0x6F, 0x20, 0x77, 0x6F, 0x72, 0x6C, 0x64]"

definition hello :: jsstring where
  "hello = [0x68, 0x65, 0x6C, 0x6C, 0x6F]"

definition faceB :: jsstring where
  "faceB = [0xD83D, 0xDE00, 0x20, 0x62]"

definition aLFb :: jsstring where
  "aLFb = [0x61, 0x0A, 0x62]"

section \<open>Decoding: lemmas\<close>

lemma unat_16_bound: "unat (u :: 16 word) < 65536"
  using unsigned_less [of u, where ?'a = nat] by simp

lemma firstUnit_pair:
  assumes "isLeadSurrogate u" "isTrailSurrogate v"
  shows "firstUnit (0x10000 + (unat u - 0xD800) * 0x400 + (unat v - 0xDC00)) = unat u"
proof -
  from assms(1) have u: "55296 \<le> unat u" "unat u \<le> 56319"
    by (simp_all add: isLeadSurrogate_def word_le_nat_alt)
  from assms(2) have v: "56320 \<le> unat v" "unat v \<le> 57343"
    by (simp_all add: isTrailSurrogate_def word_le_nat_alt)
  have "((unat u - 55296) * 1024 + (unat v - 56320)) div 1024 = unat u - 55296"
    using v by simp
  then show ?thesis
    using u by (simp add: firstUnit_def add.assoc)
qed

lemma firstUnit_unit: "firstUnit (unat (u :: 16 word)) = unat u"
  using unat_16_bound [of u] by (simp add: firstUnit_def)

lemma toCharCodeArray_firstUnit: "toCharCodeArray s = map firstUnit (codePoints s)"
  by (induction s rule: codePoints.induct)
     (simp_all add: toCharCodeArray_def charCodeAt0_def firstUnit_pair firstUnit_unit)

text \<open>
  What \<open>toCharCodeArray\<close> computes: one entry per code point, holding the first code
  unit of that code point. Without a surrogate pair in the string this is the code point
  sequence.
\<close>

lemma toCharCodeArray_first_units:
  "toCharCodeArray str = map firstUnit (codePoints str)
   \<and> length (toCharCodeArray str) = length (codePoints str)"
  by (simp add: toCharCodeArray_firstUnit)

lemma toCharCodeArray_no_pairs: "\<not> hasSurrogatePair str \<Longrightarrow> toCharCodeArray str = codePoints str"
  by (induction str rule: hasSurrogatePair.induct)
     (auto simp: toCharCodeArray_def charCodeAt0_def)

text \<open>
  Claim C5: every entry of \<open>toCharCodeArray\<close> is the Unicode scalar value of its code
  point. The code breaks this on a supplementary character: for the string of the single
  code point U+1F600 there is one entry, as the claim says, but it is the lead surrogate
  \<open>0xD83D\<close> that \<open>charCodeAt(0)\<close> reads, not the scalar value \<open>0x1F600\<close>.
\<close>

theorem toCharCodeArray_supplementary:
  "toCharCodeArray [0xD83D, 0xDE00] = [0xD83D]
   \<and> codePoints [0xD83D, 0xDE00] = [0x1F600]
   \<and> length (toCharCodeArray [0xD83D, 0xDE00]) = length (codePoints [0xD83D, 0xDE00])
   \<and> toCharCodeArray [0xD83D, 0xDE00] \<noteq> codePoints [0xD83D, 0xDE00]"
  by (simp add: toCharCodeArray_def charCodeAt0_def isLeadSurrogate_def isTrailSurrogate_def)

section \<open>Glyph positions\<close>

lemma indexOfFrom_position:
  "indexOfFrom cm chr k =
     (if chr \<in> set cm then k + int (length (takeWhile (\<lambda>y. y \<noteq> chr) cm)) else - 1)"
  by (induction cm arbitrary: k) auto

lemma smod_nonneg: "0 \<le> (k :: int) \<Longrightarrow> 0 < l \<Longrightarrow> k smod l = k mod l"
  by (simp add: smod_int_alt_def sgn_if)

text \<open>
  Claim C8. With a positive number of cells per row, \<open>getCharPosition\<close> returns a
  position for every character code: \<open>(0, 0)\<close> when the character map is configured and
  does not hold the character, and otherwise the cell of the index, which is the first
  position of the character in the map, or the code itself without a map. The function
  has no error result: none of its operations throws.
\<close>

theorem getCharPosition_total:
  assumes "0 < charsInRow a"
  shows "getCharPosition a charCode =
     (case charMap a of
        None \<Rightarrow> (charWidth a * (int charCode mod charsInRow a),
                 charHeight a * (int charCode div charsInRow a))
      | Some cm \<Rightarrow>
          if word_of_nat charCode \<in> set cm
          then (let index = int (length (takeWhile (\<lambda>y. y \<noteq> word_of_nat charCode) cm))
                in (charWidth a * (index mod charsInRow a), charHeight a * (index div charsInRow a)))
          else (0, 0))"
proof (cases "charMap a")
  case None
  then show ?thesis
    using assms by (simp add: getCharPosition_def smod_nonneg Let_def)
next
  case (Some cm)
  then show ?thesis
    using assms by (simp add: getCharPosition_def indexOf_def indexOfFrom_position smod_nonneg Let_def)
qed

theorem getCharPosition_total_witness:
  "0 < charsInRow setupDefaults
   \<and> getCharPosition setupDefaults 65 = (1040, 0)
   \<and> getCharPosition (setupDefaults\<lparr>charMap := Some [0x41, 0x42]\<rparr>) 0x43 = (0, 0)
   \<and> getCharPosition (setupDefaults\<lparr>charMap := Some [0x41, 0x42]\<rparr>) 0x42 = (16, 0)"
  using getCharPosition_total [of setupDefaults 65]
    getCharPosition_total [of "setupDefaults\<lparr>charMap := Some [0x41, 0x42]\<rparr>" "0x43"]
    getCharPosition_total [of "setupDefaults\<lparr>charMap := Some [0x41, 0x42]\<rparr>" "0x42"]
  by (simp add: setupDefaults_def)

section \<open>Compositing: lemmas\<close>

lemma drawChars_width: "snd (drawChars a bx cs p t) = textWidthLoop a cs t"
  by (induction cs arbitrary: bx p t) (simp_all add: drawChr_def split_def Let_def)

lemma tintGuard_always: "tintGuard color"
  by (cases color) (simp_all add: tintGuard_def js_typeof_def)

lemma glyphBuffer_eq:
  "glyphBuffer a utf8Array color =
     (Canvas (charWidth a * int (length utf8Array)) (charHeight a)
        (fst (drawChars a [] utf8Array (0, 0) 0)
         @ [SetFillStyle color, SetCompositeOperation ''source-in'',
            FillRect 0 0 (charWidth a * int (length utf8Array)) (charHeight a)]),
      textWidthLoop a utf8Array 0)"
  by (simp add: glyphBuffer_def createBufferCanvas_def tintGuard_always split_def Let_def drawChars_width)

lemma drawTextCanvas_eq:
  "drawTextCanvas a cx utf8Array pos color size_arg =
     (cx @ [DrawCanvas
              (case (if size_arg = Some 1 then None else size_arg) of
                 None \<Rightarrow> fst (glyphBuffer a utf8Array color)
               | Some sz \<Rightarrow>
                   Canvas (charWidth a * int (length utf8Array) * sz) (charHeight a * sz)
                     [DrawCanvasSized (fst (glyphBuffer a utf8Array color)) 0 0
                        (charWidth a * int (length utf8Array) * sz) (charHeight a * sz)])
              (fst pos) (snd pos)],
      textWidthLoop a utf8Array 0)"
  by (simp add: drawTextCanvas_def glyphBuffer_eq createBufferCanvas_def Let_def split: option.splits)

text \<open>
  Claim C10. The guard of the tint step holds for every value of \<open>color\<close>,
  \<open>undefined\<close> and \<open>null\<close> included, so the buffer of \<open>drawTextCanvas\<close> always ends
  with the source-in fill over its whole area, and that buffer (scaled or not) is what
  \<open>drawTextCanvas\<close> draws.
\<close>

theorem tint_unconditional:
  "tintGuard color
   \<and> fst (glyphBuffer a utf8Array color) =
       Canvas (charWidth a * int (length utf8Array)) (charHeight a)
         (fst (drawChars a [] utf8Array (0, 0) 0)
          @ [SetFillStyle color, SetCompositeOperation ''source-in'',
             FillRect 0 0 (charWidth a * int (length utf8Array)) (charHeight a)])
   \<and> fst (drawTextCanvas a cx utf8Array pos color size_arg) =
       cx @ [DrawCanvas
               (case (if size_arg = Some 1 then None else size_arg) of
                  None \<Rightarrow> fst (glyphBuffer a utf8Array color)
                | Some sz \<Rightarrow>
                    Canvas (charWidth a * int (length utf8Array) * sz) (charHeight a * sz)
                      [DrawCanvasSized (fst (glyphBuffer a utf8Array color)) 0 0
                         (charWidth a * int (length utf8Array) * sz) (charHeight a * sz)])
               (fst pos) (snd pos)]"
  by (simp add: tintGuard_always glyphBuffer_eq drawTextCanvas_eq)

theorem tint_unconditional_witness:
  "tintGuard Undefined \<and> tintGuard Null
   \<and> fst (glyphBuffer setupDefaults [65] Undefined) =
       Canvas 16 16 [DrawFontImage 1040 0 16 16 0 0 16 16, SetFillStyle Undefined,
                     SetCompositeOperation ''source-in'', FillRect 0 0 16 16]
   \<and> fst (glyphBuffer setupDefaults [65] Null) =
       Canvas 16 16 [DrawFontImage 1040 0 16 16 0 0 16 16, SetFillStyle Null,
                     SetCompositeOperation ''source-in'', FillRect 0 0 16 16]"
  using tint_unconditional [of Undefined setupDefaults "[65]" "[]" "(0, 0)" None]
    tint_unconditional [of Null setupDefaults "[65]" "[]" "(0, 0)" None]
  by (simp add: setupDefaults_def drawChr_def getCharPosition_def)

text \<open>
  Claim C6, as amended. \<open>drawTextShadow\<close> draws the shadow pass at
  \<open>(scale, scale)\<close> before the foreground pass at \<open>(0, 0)\<close>, and returns the summed
  glyph width of the line plus \<open>scale\<close>, which for the codes of a text is
  \<open>getTextWidth\<close> of the text at size 1 plus \<open>scale\<close>. The buffer is sized from the
  cell grid of the line, not from its measured width: it is at least
  \<open>charWidth * length * scale\<close> wide and \<open>charHeight * scale\<close> high, and at scale 1 it
  is \<open>charWidth * length * scale + scale\<close> by \<open>charHeight * scale + scale\<close>.
\<close>

theorem drawTextShadow_buffer:
  "calls (fst (drawTextShadow a utf8Array color (Some sz) shadowcolor)) =
       fst (drawTextCanvas a [] utf8Array (sz, sz) shadowcolor (Some sz))
       @ fst (drawTextCanvas a [] utf8Array (0, 0) color (Some sz))
   \<and> placements (calls (fst (drawTextShadow a utf8Array color (Some sz) shadowcolor))) =
       [(sz, sz), (0, 0)]
   \<and> snd (drawTextShadow a utf8Array color (Some sz) shadowcolor) =
       textWidthLoop a utf8Array 0 + sz
   \<and> snd (drawTextShadow a (toCharCodeArray t) color (Some sz) shadowcolor) =
       getTextWidth a t (Some 1) + sz
   \<and> charWidth a * int (length utf8Array) * sz
       \<le> canvas_width (fst (drawTextShadow a utf8Array color (Some sz) shadowcolor))
   \<and> charHeight a * sz
       \<le> canvas_height (fst (drawTextShadow a utf8Array color (Some sz) shadowcolor))
   \<and> canvas_width (fst (drawTextShadow a utf8Array color (Some 1) shadowcolor)) =
       charWidth a * int (length utf8Array) * 1 + 1
   \<and> canvas_height (fst (drawTextShadow a utf8Array color (Some 1) shadowcolor)) =
       charHeight a * 1 + 1
   \<and> drawTextShadow a utf8Array color None shadowcolor =
       drawTextShadow a utf8Array color (Some 1) shadowcolor"
  by (simp add: drawTextShadow_def drawTextCanvas_eq createBufferCanvas_def placements_def
      List.map_filter_def getTextWidth_def)

text \<open>
  Claim C6 as stated fails already at scale 1, for the line \<open>"A"\<close> with the default
  atlas: the buffer is \<open>16 * 1 * 1 + 1 = 17\<close> wide, a full cell and the margin, where the
  claim gives the measured width and the margin, \<open>8 * 1 + 1 = 9\<close>.
\<close>

theorem drawTextShadow_size_counterexample:
  "canvas_width (fst (drawTextShadow setupDefaults [65] (JSString ''blue'') (Some 1) (JSString ''red'')))
     = 17
   \<and> getTextWidth setupDefaults [0x41] (Some 1) * 1 + 1 = 9
   \<and> canvas_width (fst (drawTextShadow setupDefaults [65] (JSString ''blue'') (Some 1) (JSString ''red'')))
     \<noteq> getTextWidth setupDefaults [0x41] (Some 1) * 1 + 1"
  by (simp add: drawTextShadow_def drawTextCanvas_eq createBufferCanvas_def setupDefaults_def
      getTextWidth_def toCharCodeArray_def charCodeAt0_def getCharWidthFromCharCode_def)

text \<open>
  At a larger scale the buffer keeps the margin of one pixel, while the shadow pass is
  drawn \<open>scale\<close> pixels in: for \<open>"A"\<close> at scale 2 the buffer is 33 by 33 and the shadow
  pass, 32 by 32, is drawn at \<open>(2, 2)\<close>.
\<close>

lemma drawTextShadow_scale_2:
  "canvas_width (fst (drawTextShadow setupDefaults [65] (JSString ''blue'') (Some 2) (JSString ''red'')))
     = 33
   \<and> canvas_height (fst (drawTextShadow setupDefaults [65] (JSString ''blue'') (Some 2) (JSString ''red'')))
     = 33
   \<and> placements (calls (fst (drawTextShadow setupDefaults [65] (JSString ''blue'') (Some 2)
        (JSString ''red'')))) = [(2, 2), (0, 0)]"
  by (simp add: drawTextShadow_def drawTextCanvas_eq createBufferCanvas_def setupDefaults_def
      placements_def List.map_filter_def)

section \<open>Word wrapping: lemmas\<close>

lemma foldl_append_concat: "foldl (@) acc xss = acc @ concat xss"
  by (induction xss arbitrary: acc) simp_all

lemma missingText_drop: "missingText text arr = drop (length (concat arr)) text"
  by (simp add: missingText_def fromCharCode_def foldl_append_concat)

lemma addWord_last:
  assumes "Suc l = length arr"
  shows "addWord arr l w = Inr (butlast arr @ [last arr @ w @ [32]])"
proof -
  from assms obtain xs x where arr: "arr = xs @ [x]"
    by (cases arr rule: rev_cases) auto
  with assms have l: "l = length xs" by simp
  show ?thesis
    by (simp add: addWord_def arr l)
qed

lemma pushLine_next:
  assumes "Suc l = length arr"
  shows "pushLine arr (Suc l) = Inr (arr @ [[]])"
  using assms by (simp add: pushLine_def list_update_append)

lemma delimiter_dense:
  assumes "Suc (line s) = length (wrapped2DArray s)"
  shows "delimiter a text wrap sz isLF s =
     (if width s + wordWidth s < box0 wrap then
        (if isLF then
           (if box1 wrap \<le> (int (line s) + 1) * 16 * sz
            then Return (Early (butlast (wrapped2DArray s) @ [last (wrapped2DArray s) @ word s @ [32]])
                   (missingText text (butlast (wrapped2DArray s) @ [last (wrapped2DArray s) @ word s @ [32]])))
            else Continue (s\<lparr>wrapped2DArray :=
                               butlast (wrapped2DArray s) @ [last (wrapped2DArray s) @ word s @ [32]] @ [[]],
                             width := wordWidth s + 8 * sz, line := Suc (line s), word := [],
                             wordWidth := 0\<rparr>))
         else Continue (s\<lparr>wrapped2DArray :=
                             butlast (wrapped2DArray s) @ [last (wrapped2DArray s) @ word s @ [32]],
                           width := width s + wordWidth s + 8 * sz, word := [], wordWidth := 0\<rparr>))
      else
        (if box1 wrap \<le> (int (line s) + 1 + 1) * charWidth a * sz
         then Return (Early (wrapped2DArray s) (missingText text (wrapped2DArray s)))
         else Continue (s\<lparr>wrapped2DArray := wrapped2DArray s @ [word s @ [32]],
                          width := wordWidth s + 8 * sz, line := Suc (line s), word := [],
                          wordWidth := 0\<rparr>)))"
proof -
  let ?arr1 = "butlast (wrapped2DArray s) @ [last (wrapped2DArray s) @ word s @ [32]]"
  have a1: "addWord (wrapped2DArray s) (line s) (word s) = Inr ?arr1"
    using assms by (rule addWord_last)
  have len1: "Suc (line s) = length ?arr1"
    using assms by simp
  have p1: "pushLine ?arr1 (Suc (line s)) = Inr (?arr1 @ [[]])"
    using len1 by (rule pushLine_next)
  have p2: "pushLine (wrapped2DArray s) (Suc (line s)) = Inr (wrapped2DArray s @ [[]])"
    using assms by (rule pushLine_next)
  have a2: "addWord (wrapped2DArray s @ [[]]) (Suc (line s)) (word s)
      = Inr (wrapped2DArray s @ [word s @ [32]])"
    using assms by (simp add: addWord_def nth_append)
  show ?thesis
    unfolding delimiter_def Let_def
    by (simp add: a1 p1 p2 a2 algebra_simps del: append_assoc)
qed


lemma concat_butlast_last:
  "arr \<noteq> [] \<Longrightarrow> concat (butlast arr) @ last arr = concat arr"
  by (cases arr rule: rev_cases) simp_all

lemma storeMaxWidth_fields [simp]:
  "wrapped2DArray (storeMaxWidth s) = wrapped2DArray s"
  "line (storeMaxWidth s) = line s"
  "word (storeMaxWidth s) = word s"
  "wordWidth (storeMaxWidth s) = wordWidth s"
  "width (storeMaxWidth s) = width s"
  by (simp_all add: storeMaxWidth_def)

lemma delimiter_Continue:
  assumes "Suc (line s) = length (wrapped2DArray s)"
    and "delimiter a text wrap sz isLF s = Continue s1"
  shows "Suc (line s1) = length (wrapped2DArray s1)
    \<and> word s1 = []
    \<and> concat (wrapped2DArray s1) = concat (wrapped2DArray s) @ word s @ [32]"
proof -
  from assms(1) have ne: "wrapped2DArray s \<noteq> []" by auto
  show ?thesis
    using assms(2) assms(1) unfolding delimiter_dense [OF assms(1)]
    by (auto simp: concat_butlast_last [OF ne] split: if_splits)
qed

lemma delimiter_Return:
  assumes "Suc (line s) = length (wrapped2DArray s)"
    and "delimiter a text wrap sz isLF s = Return r"
  shows "\<exists>ls. r = Early ls (missingText text ls)
    \<and> (concat ls = concat (wrapped2DArray s)
       \<or> (isLF \<and> concat ls = concat (wrapped2DArray s) @ word s @ [32]))"
proof -
  from assms(1) have ne: "wrapped2DArray s \<noteq> []" by auto
  show ?thesis
    using assms(2) unfolding delimiter_dense [OF assms(1)]
    by (auto simp: concat_butlast_last [OF ne] split: if_splits)
qed

lemma delimiter_no_Throw:
  assumes "Suc (line s) = length (wrapped2DArray s)"
  shows "delimiter a text wrap sz isLF s \<noteq> Throw e"
  unfolding delimiter_dense [OF assms] by simp

lemma wrapLoop_total:
  assumes "Suc (line s) = length (wrapped2DArray s)"
  shows "\<exists>r. wrapLoop a text wrap sz cs s = Inr r"
  using assms
proof (induction cs arbitrary: s)
  case Nil
  then show ?case
    using delimiter_no_Throw [OF Nil, of a "text" wrap sz False]
    by (cases "delimiter a text wrap sz False s") (auto simp: Let_def)
next
  case (Cons c cs)
  show ?case
  proof (cases "c \<noteq> 32 \<and> c \<noteq> 10")
    case True
    then show ?thesis
      using Cons.IH [of "storeMaxWidth (s\<lparr>wordWidth := wordWidth s + getCharWidthFromCharCode a c * sz,
                            word := word s @ [c]\<rparr>)"] Cons.prems
      by simp
  next
    case False
    show ?thesis
    proof (cases "delimiter a text wrap sz (c = 10) s")
      case (Return r)
      with False show ?thesis by auto
    next
      case (Continue s1)
      from delimiter_Continue [OF Cons.prems Continue]
      have "Suc (line (storeMaxWidth s1)) = length (wrapped2DArray (storeMaxWidth s1))" by simp
      from Cons.IH [OF this] Continue False show ?thesis by auto
    next
      case (Throw e)
      with delimiter_no_Throw [OF Cons.prems] show ?thesis by blast
    qed
  qed
qed

lemma wrapLoop_Full:
  assumes "Suc (line s) = length (wrapped2DArray s)"
    and "wrapLoop a text wrap sz cs s = Inr (Full ls m mw uh)"
  shows "m = [] \<and> ls \<noteq> [] \<and> uh = int (length ls) * getHeight a sz"
  using assms
proof (induction cs arbitrary: s)
  case Nil
  show ?case
  proof (cases "delimiter a text wrap sz False s")
    case (Return r)
    with delimiter_Return [OF Nil(1) Return] Nil(2) show ?thesis by auto
  next
    case (Continue s1)
    from delimiter_Continue [OF Nil(1) Continue]
    have "Suc (line s1) = length (wrapped2DArray s1)" by simp
    with Continue Nil(2) show ?thesis by (auto simp: Let_def)
  next
    case (Throw e)
    with Nil(2) show ?thesis by simp
  qed
next
  case (Cons c cs)
  show ?case
  proof (cases "c \<noteq> 32 \<and> c \<noteq> 10")
    case True
    then show ?thesis
      using Cons.IH [of "storeMaxWidth (s\<lparr>wordWidth := wordWidth s + getCharWidthFromCharCode a c * sz,
                            word := word s @ [c]\<rparr>)"] Cons.prems
      by simp
  next
    case False
    show ?thesis
    proof (cases "delimiter a text wrap sz (c = 10) s")
      case (Return r)
      with delimiter_Return [OF Cons.prems(1) Return] Cons.prems(2) False show ?thesis by auto
    next
      case (Continue s1)
      from delimiter_Continue [OF Cons.prems(1) Continue]
      have "Suc (line (storeMaxWidth s1)) = length (wrapped2DArray (storeMaxWidth s1))" by simp
      from Cons.IH [OF this] Continue False Cons.prems(2) show ?thesis by auto
    next
      case (Throw e)
      with Cons.prems(2) False show ?thesis by auto
    qed
  qed
qed

lemma wrapLoop_Early:
  assumes "Suc (line s) = length (wrapped2DArray s)"
    and "10 \<notin> set (word s)"
    and "wrapLoop a text wrap sz cs s = Inr (Early ls m)"
  shows "\<exists>k\<le>length (word s @ cs).
           concat ls = concat (wrapped2DArray s) @ map placedCode (take k (word s @ cs))
           \<and> m = drop (length (concat ls)) text"
  using assms
proof (induction cs arbitrary: s)
  case Nil
  show ?case
  proof (cases "delimiter a text wrap sz False s")
    case (Return r)
    from delimiter_Return [OF Nil(1) Return] Nil(3) Return
    have "concat ls = concat (wrapped2DArray s)" "m = missingText text ls" by auto
    then show ?thesis
      by (intro exI [of _ 0]) (simp add: missingText_drop)
  next
    case (Continue s1)
    with Nil(3) show ?thesis by (simp add: Let_def)
  next
    case (Throw e)
    with Nil(3) show ?thesis by simp
  qed
next
  case (Cons c cs)
  have wordmap: "map placedCode (word s) = word s"
    using Cons.prems(2) by (intro map_idI) (auto simp: placedCode_def)
  show ?case
  proof (cases "c \<noteq> 32 \<and> c \<noteq> 10")
    case True
    let ?s = "storeMaxWidth (s\<lparr>wordWidth := wordWidth s + getCharWidthFromCharCode a c * sz,
                            word := word s @ [c]\<rparr>)"
    have "\<exists>k\<le>length (word ?s @ cs).
           concat ls = concat (wrapped2DArray ?s) @ map placedCode (take k (word ?s @ cs))
           \<and> m = drop (length (concat ls)) text"
      using True Cons.prems by (intro Cons.IH) simp_all
    then show ?thesis by simp
  next
    case False
    show ?thesis
    proof (cases "delimiter a text wrap sz (c = 10) s")
      case (Return r)
      from Cons.prems(3) False Return have r: "r = Early ls m" by auto
      from delimiter_Return [OF Cons.prems(1) Return] r
      have m: "m = missingText text ls"
        and alt: "concat ls = concat (wrapped2DArray s)
          \<or> (c = 10 \<and> concat ls = concat (wrapped2DArray s) @ word s @ [32])" by auto
      from alt show ?thesis
      proof
        assume "concat ls = concat (wrapped2DArray s)"
        with m show ?thesis
          by (intro exI [of _ 0]) (simp add: missingText_drop)
      next
        assume "c = 10 \<and> concat ls = concat (wrapped2DArray s) @ word s @ [32]"
        moreover have "placedCode 10 = 32" by (simp add: placedCode_def)
        ultimately show ?thesis
          using m wordmap
          by (intro exI [of _ "Suc (length (word s))"]) (simp add: missingText_drop)
      qed
    next
      case (Continue s1)
      from delimiter_Continue [OF Cons.prems(1) Continue]
      have s1: "Suc (line s1) = length (wrapped2DArray s1)" "word s1 = []"
        "concat (wrapped2DArray s1) = concat (wrapped2DArray s) @ word s @ [32]" by simp_all
      from Cons.prems(3) False Continue
      have run: "wrapLoop a text wrap sz cs (storeMaxWidth s1) = Inr (Early ls m)" by auto
      have "\<exists>k\<le>length (word (storeMaxWidth s1) @ cs).
           concat ls = concat (wrapped2DArray (storeMaxWidth s1))
             @ map placedCode (take k (word (storeMaxWidth s1) @ cs))
           \<and> m = drop (length (concat ls)) text"
        using s1 run by (intro Cons.IH) simp_all
      then obtain k where k: "k \<le> length cs"
        "concat ls = concat (wrapped2DArray s) @ word s @ [32] @ map placedCode (take k cs)"
        "m = drop (length (concat ls)) text"
        using s1 by auto
      from False have c: "placedCode c = 32" by (auto simp: placedCode_def)
      show ?thesis
        using k wordmap c
        by (intro exI [of _ "Suc (length (word s)) + k"]) simp
    next
      case (Throw e)
      with Cons.prems(3) False show ?thesis by auto
    qed
  qed
qed

lemma initialState_dense: "Suc (line initialState) = length (wrapped2DArray initialState)"
  by (simp add: initialState_def)

lemma remember_codes: "memoSound e \<Longrightarrow> textUTF8Array (remember e t) = toCharCodeArray t"
  by (auto simp: remember_def memoSound_def)

lemma remember_sound: "memoSound e \<Longrightarrow> memoSound (remember e t)"
  by (auto simp: remember_def memoSound_def)

lemma fresh_sound: "memoSound fresh"
  by (simp add: memoSound_def fresh_def)

lemma wrapText_sound: "memoSound e \<Longrightarrow> memoSound (snd (wrapText a e t wrap sz))"
  by (simp add: wrapText_def Let_def remember_sound)

lemma wrapCalls_sound: "memoSound e \<Longrightarrow> memoSound (wrapCalls a e cs)"
  by (induction cs arbitrary: e) (auto simp: wrapText_sound)

lemma wrapText_result:
  "memoSound e \<Longrightarrow>
     fst (wrapText a e t wrap sz) = wrapLoop a t wrap sz (toCharCodeArray t) initialState"
  by (simp add: wrapText_def Let_def remember_codes)

lemma wrapText_total: "memoSound e \<Longrightarrow> \<exists>r. fst (wrapText a e t wrap sz) = Inr r"
  by (simp add: wrapText_result wrapLoop_total initialState_dense)

text \<open>
  Claim C9. The memo of the last text does not show in the results: after any sequence
  of earlier \<open>wrapText\<close> calls, with any texts, boxes and scales, a call returns what a
  fresh engine with the same atlas returns for the same arguments.
\<close>

theorem memo_transparent:
  "fst (wrapText a (wrapCalls a fresh earlier) t wrap sz) = fst (wrapText a fresh t wrap sz)"
  by (simp add: wrapText_result wrapCalls_sound fresh_sound)

text \<open>
  Claim C3. When \<open>wrapText\<close> reads the whole text without an early return, the missing
  text is empty and the used height is \<open>(L + 1) * charHeight * scale\<close>, where \<open>L\<close> is
  the index of the last line. With the default atlas, \<open>"hello world"\<close> in the box
  \<open>[1000, 1000, 0]\<close> at scale 1 is the single line \<open>hello\<close>, space, \<open>world\<close>, space,
  with nothing missing.
\<close>

theorem wrap_complete_result:
  "(\<forall>ls m mw uh.
      fst (wrapText a fresh t wrap sz) = Inr (Full ls m mw uh) \<longrightarrow>
        m = [] \<and> ls \<noteq> [] \<and> uh = (int (length ls - 1) + 1) * charHeight a * sz)
   \<and> fst (wrapText setupDefaults fresh helloWorld (1000, 1000, 0) 1) =
       Inr (Full [[104, 101, 108, 108, 111, 32, 119, 111, 114, 108, 100, 32]] [] 96 16)"
proof (intro conjI allI impI)
  fix ls m mw uh
  assume "fst (wrapText a fresh t wrap sz) = Inr (Full ls m mw uh)"
  then have "wrapLoop a t wrap sz (toCharCodeArray t) initialState = Inr (Full ls m mw uh)"
    by (simp add: wrapText_result fresh_sound)
  from wrapLoop_Full [OF initialState_dense this]
  have r: "m = []" "ls \<noteq> []" "uh = int (length ls) * getHeight a sz" by simp_all
  from r(2) have "int (length ls - 1) + 1 = int (length ls)"
    by (cases ls) simp_all
  with r show "m = []" "ls \<noteq> []" "uh = (int (length ls - 1) + 1) * charHeight a * sz"
    by (simp_all add: getHeight_def mult.assoc mult.commute)
next
  show "fst (wrapText setupDefaults fresh helloWorld (1000, 1000, 0) 1) =
       Inr (Full [[104, 101, 108, 108, 111, 32, 119, 111, 114, 108, 100, 32]] [] 96 16)"
    by code_simp
qed

theorem wrap_complete_result_witness:
  "fst (wrapText setupDefaults fresh aLFb (1000, 1000, 0) 1) =
     Inr (Full [[97, 32], [98, 32]] [] 32 32)
   \<and> (32 :: int) = (int (length [[97, 32], [98 :: nat, 32]] - 1) + 1) * charHeight setupDefaults * 1"
proof -
  have h: "fst (wrapText setupDefaults fresh aLFb (1000, 1000, 0) 1) =
     Inr (Full [[97, 32], [98, 32]] [] 32 32)"
    by code_simp
  from wrap_complete_result [of setupDefaults aLFb "(1000, 1000, 0)" 1] h
  have "(32 :: int) = (int (length [[97, 32], [98 :: nat, 32]] - 1) + 1) * charHeight setupDefaults * 1"
    by blast
  with h show ?thesis by simp
qed

lemma wrapLoop_first_word_overflow:
  assumes "box0 wrap \<le> width s + wordWidth s + firstWordWidth a sz cs"
    and "box1 wrap \<le> (int (line s) + 1 + 1) * charWidth a * sz"
  shows "wrapLoop a t wrap sz cs s =
     Inr (Early (wrapped2DArray s) (missingText t (wrapped2DArray s)))"
  using assms
proof (induction cs arbitrary: s)
  case Nil
  then show ?case
    by (simp add: delimiter_def firstWordWidth_def Let_def)
next
  case (Cons c cs)
  show ?case
  proof (cases "c \<noteq> 32 \<and> c \<noteq> 10")
    case True
    let ?s = "storeMaxWidth (s\<lparr>wordWidth := wordWidth s + getCharWidthFromCharCode a c * sz,
                            word := word s @ [c]\<rparr>)"
    have "wrapLoop a t wrap sz cs ?s =
        Inr (Early (wrapped2DArray ?s) (missingText t (wrapped2DArray ?s)))"
      using True Cons.prems by (intro Cons.IH) (simp_all add: firstWordWidth_def)
    with True show ?thesis by simp
  next
    case False
    with Cons.prems show ?thesis
      by (auto simp: delimiter_def firstWordWidth_def Let_def)
  qed
qed

text \<open>
  Claim C4, as amended. With a box of height 0 whose width does not exceed the width
  summed for the first word of the text (so that the first delimiter takes the
  does-not-fit branch), and \<open>charWidth * scale\<close> not negative, \<open>wrapText\<close> returns at
  the first delimiter with the whole text as missing and the single empty line.
\<close>

theorem zero_height_box:
  assumes "box1 wrap = 0"
    and "box0 wrap \<le> firstWordWidth a sz (toCharCodeArray t)"
    and "0 \<le> charWidth a * sz"
  shows "fst (wrapText a fresh t wrap sz) = Inr (Early [[]] t)"
proof -
  have "box1 wrap \<le> (int (line initialState) + 1 + 1) * charWidth a * sz"
    using assms(1,3) by (simp add: initialState_def mult.assoc)
  moreover have "box0 wrap
      \<le> width initialState + wordWidth initialState + firstWordWidth a sz (toCharCodeArray t)"
    using assms(2) by (simp add: initialState_def)
  ultimately have "wrapLoop a t wrap sz (toCharCodeArray t) initialState =
      Inr (Early (wrapped2DArray initialState) (missingText t (wrapped2DArray initialState)))"
    by (rule wrapLoop_first_word_overflow [rotated])
  then show ?thesis
    by (simp add: wrapText_result fresh_sound initialState_def missingText_drop)
qed

theorem zero_height_box_witness:
  "box1 (0, 0, 0) = 0
   \<and> box0 (0, 0, 0) \<le> firstWordWidth setupDefaults 1 (toCharCodeArray hello)
   \<and> 0 \<le> charWidth setupDefaults * 1
   \<and> fst (wrapText setupDefaults fresh hello (0, 0, 0) 1) = Inr (Early [[]] hello)"
proof -
  have h: "box1 (0, 0, 0) = 0"
    "box0 (0, 0, 0) \<le> firstWordWidth setupDefaults 1 (toCharCodeArray hello)"
    "0 \<le> charWidth setupDefaults * 1"
    by code_simp+
  from zero_height_box [OF h] h show ?thesis by simp
qed

text \<open>
  Claim C4 as stated fails for \<open>"hello"\<close> in the box \<open>[1000, 0, 0]\<close>: the word fits
  the width, no height check is made on that path, and the whole text is placed.
\<close>

theorem zero_height_box_counterexample:
  "fst (wrapText setupDefaults fresh hello (1000, 0, 0) 1) =
     Inr (Full [[104, 101, 108, 108, 111, 32]] [] 48 16)
   \<and> missing (projr (fst (wrapText setupDefaults fresh hello (1000, 0, 0) 1))) \<noteq> hello
   \<and> lines (projr (fst (wrapText setupDefaults fresh hello (1000, 0, 0) 1))) \<noteq> [[]]"
proof -
  have "fst (wrapText setupDefaults fresh hello (1000, 0, 0) 1) =
     Inr (Full [[104, 101, 108, 108, 111, 32]] [] 48 16)"
    by code_simp
  then show ?thesis by (simp add: hello_def)
qed

lemma no_pair_codes: "\<not> hasSurrogatePair t \<Longrightarrow> toCharCodeArray t = map unat t"
  by (induction t rule: hasSurrogatePair.induct)
     (auto simp: toCharCodeArray_def charCodeAt0_def)

lemma placedUnit_code: "word_of_nat (placedCode (unat u)) = placedUnit (u :: 16 word)"
proof -
  have "(unat u = 10) = (u = 10)"
    using word_unat_eq_iff [of u 10] by simp
  then show ?thesis
    by (simp add: placedCode_def placedUnit_def)
qed

text \<open>
  Where the text has no surrogate pair the wrapper is resumable: on an early return the
  placed codes, decoded back to a string, are the first \<open>k\<close> code units of the text with
  every line feed rendered as the space the wrapper appends, and the missing text is the
  text from unit \<open>k\<close> on.
\<close>

lemma wrap_resumable_no_pairs:
  assumes "\<not> hasSurrogatePair t"
    and "fst (wrapText a fresh t wrap sz) = Inr (Early ls m)"
  shows "length (concat ls) \<le> length t
    \<and> fromCharCode (concat ls) = map placedUnit (take (length (concat ls)) t)
    \<and> m = drop (length (concat ls)) t
    \<and> take (length (fromCharCode (concat ls))) t @ m = t"
proof -
  from assms(2) have run: "wrapLoop a t wrap sz (map unat t) initialState = Inr (Early ls m)"
    by (simp add: wrapText_result fresh_sound no_pair_codes [OF assms(1)])
  have "10 \<notin> set (word initialState)" by (simp add: initialState_def)
  from wrapLoop_Early [OF initialState_dense this run]
  obtain k where k: "k \<le> length t" "concat ls = map placedCode (take k (map unat t))"
    "m = drop (length (concat ls)) t"
    by (auto simp: initialState_def)
  from k(1,2) have len: "length (concat ls) = k" by simp
  have "fromCharCode (concat ls) = map placedUnit (take k t)"
    by (simp add: k(2) fromCharCode_def take_map placedUnit_code)
  with k len show ?thesis by (simp add: fromCharCode_def)
qed


lemma wrap_resumable_no_pairs_example:
  "\<not> hasSurrogatePair aLFb
   \<and> fst (wrapText setupDefaults fresh aLFb (1000, 16, 0) 1) = Inr (Early [[97, 32]] [0x62])
   \<and> fromCharCode (concat [[97, 32]]) = map placedUnit (take 2 aLFb)
   \<and> [0x62] = drop 2 aLFb"
proof -
  have h: "\<not> hasSurrogatePair aLFb"
    "fst (wrapText setupDefaults fresh aLFb (1000, 16, 0) 1) = Inr (Early [[97, 32]] [0x62])"
    by code_simp+
  from wrap_resumable_no_pairs [OF h] h show ?thesis
    by (simp add: numeral_2_eq_2)
qed

lemma faceB_codes: "toCharCodeArray faceB = [55357, 32, 98]"
  by (simp add: faceB_def toCharCodeArray_def charCodeAt0_def isLeadSurrogate_def isTrailSurrogate_def)

text \<open>
  Claim C2: after an early return, the placed prefix followed by the missing text covers
  the text, nothing dropped and nothing twice. The code breaks this on a surrogate pair:
  for U+1F600 followed by \<open>" b"\<close> in the box \<open>[20, 32, 0]\<close> two codes are placed, which
  stand for three code units of the text, and \<open>missingText\<close> cuts the text at unit 2.
  The trail surrogate is lost and the space is there twice; the remainder is \<open>"b"\<close>.
\<close>

theorem wrap_resumable_surrogate_pair:
  "fst (wrapText setupDefaults fresh faceB (20, 32, 0) 1) = Inr (Early [[0xD83D, 32]] [0x20, 0x62])
   \<and> fromCharCode (concat [[0xD83D, 32]]) @ [0x20, 0x62] \<noteq> faceB
   \<and> map placedUnit (fromCharCode (concat [[0xD83D, 32]]) @ [0x20, 0x62]) \<noteq> map placedUnit faceB"
proof (intro conjI)
  have "fst (wrapText setupDefaults fresh faceB (20, 32, 0) 1)
      = wrapLoop setupDefaults faceB (20, 32, 0) 1 [55357, 32, 98] initialState"
    by (simp add: wrapText_result fresh_sound faceB_codes)
  also have "\<dots> = Inr (Early [[0xD83D, 32]] [0x20, 0x62])"
    by (simp add: initialState_def delimiter_def addWord_def
      pushLine_def storeMaxWidth_def getCharWidthFromCharCode_def setupDefaults_def box0_def box1_def
      Let_def missingText_def fromCharCode_def faceB_def)
  finally show "fst (wrapText setupDefaults fresh faceB (20, 32, 0) 1)
      = Inr (Early [[0xD83D, 32]] [0x20, 0x62])" .
  show "fromCharCode (concat [[0xD83D, 32]]) @ [0x20, 0x62] \<noteq> faceB"
    by (simp add: fromCharCode_def faceB_def)
  show "map placedUnit (fromCharCode (concat [[0xD83D, 32]]) @ [0x20, 0x62]) \<noteq> map placedUnit faceB"
    by (simp add: fromCharCode_def faceB_def placedUnit_def)
qed

section \<open>Overflow checks and line pitch\<close>

lemma storeMaxWidth_max: "storeMaxWidth s = s\<lparr>maxWidth := max (maxWidth s) (width s)\<rparr>"
  by (simp add: storeMaxWidth_def max_def)

text \<open>
  Claim C1. The run of \<open>wrapText\<close> on a text is the loop from the initial state over
  the codes of the text, and in every state the loop reaches (the line index is the index
  of the last line) one iteration does the following, with \<open>L\<close> the line index after
  advancing. At a line feed whose word fits, the word is placed and the loop returns
  early exactly when \<open>L * 16 * scale >= maxHeight\<close>; otherwise the new line starts with
  the width \<open>wordWidth + spaceWidth\<close> of the word just placed. At a space or at the end
  of the text, a word that fits is placed with no check. At any delimiter whose word does
  not fit, the loop returns early exactly when \<open>(L + 1) * charWidth * scale >= maxHeight\<close>,
  and otherwise puts the word on a new line. Any other code joins the word. Every state
  an iteration passes on again has the line index at the last line.
\<close>

theorem wrap_iterations:
  assumes "Suc (line s) = length (wrapped2DArray s)"
  shows
   "(let arr = wrapped2DArray s;
         placed = butlast arr @ [last arr @ word s @ [32]];
         fits = (width s + wordWidth s < box0 wrap);
         L = int (line s) + 1;
         lfStop = (box1 wrap \<le> L * 16 * sz);
         longStop = (box1 wrap \<le> (L + 1) * charWidth a * sz);
         W = width s + wordWidth s + 8 * sz;
         carried = wordWidth s + 8 * sz;
         longLine = s\<lparr>wrapped2DArray := arr @ [word s @ [32]], width := carried,
                       line := Suc (line s), word := [], wordWidth := 0,
                       maxWidth := max (maxWidth s) carried\<rparr>
     in wrapLoop a t wrap sz (10 # cs) s =
          (if fits then
             if lfStop then Inr (Early placed (missingText t placed))
             else wrapLoop a t wrap sz cs
                    (s\<lparr>wrapped2DArray := placed @ [[]], width := carried,
                       line := Suc (line s), word := [], wordWidth := 0,
                       maxWidth := max (maxWidth s) carried\<rparr>)
           else if longStop then Inr (Early arr (missingText t arr))
           else wrapLoop a t wrap sz cs longLine)
      \<and> wrapLoop a t wrap sz (32 # cs) s =
          (if fits then
             wrapLoop a t wrap sz cs
               (s\<lparr>wrapped2DArray := placed, width := W, word := [], wordWidth := 0,
                  maxWidth := max (maxWidth s) W\<rparr>)
           else if longStop then Inr (Early arr (missingText t arr))
           else wrapLoop a t wrap sz cs longLine)
      \<and> wrapLoop a t wrap sz [] s =
          (if fits then Inr (Full placed [] (max (maxWidth s) W) (L * getHeight a sz))
           else if longStop then Inr (Early arr (missingText t arr))
           else Inr (Full (arr @ [word s @ [32]]) [] (max (maxWidth s) carried)
                       ((L + 1) * getHeight a sz)))
      \<and> (c \<noteq> 32 \<and> c \<noteq> 10 \<longrightarrow>
           wrapLoop a t wrap sz (c # cs) s =
             wrapLoop a t wrap sz cs
               (s\<lparr>wordWidth := wordWidth s + getCharWidthFromCharCode a c * sz,
                  word := word s @ [c], maxWidth := max (maxWidth s) (width s)\<rparr>))
      \<and> Suc (line longLine) = length (wrapped2DArray longLine)
      \<and> Suc (Suc (line s)) = length (placed @ [[]])
      \<and> Suc (line s) = length placed
      \<and> (fits \<longrightarrow> stopsEarly (delimiter a t wrap sz True s) = lfStop
                   \<and> \<not> stopsEarly (delimiter a t wrap sz False s))
      \<and> (\<not> fits \<longrightarrow> stopsEarly (delimiter a t wrap sz isLF s) = longStop))
    \<and> fst (wrapText a fresh t wrap sz) =
        wrapLoop a t wrap sz (toCharCodeArray t)
          \<lparr>wrapped2DArray = [[]], width = 0, line = 0, word = [], wordWidth = 0, maxWidth = 0\<rparr>"
proof -
  have run: "fst (wrapText a fresh t wrap sz) =
        wrapLoop a t wrap sz (toCharCodeArray t)
          \<lparr>wrapped2DArray = [[]], width = 0, line = 0, word = [], wordWidth = 0, maxWidth = 0\<rparr>"
    by (simp add: wrapText_result fresh_sound initialState_def)
  have "int (line s) + 1 + 1 = int (line s) + 2" by simp
  show ?thesis
    unfolding Let_def
    by (intro conjI run)
       (simp_all add: delimiter_dense [OF assms] storeMaxWidth_max algebra_simps assms [symmetric])
qed


theorem wrap_iterations_witness:
  "Suc (line \<lparr>wrapped2DArray = [[]], width = 0, line = 0, word = [97], wordWidth = 8, maxWidth = 0\<rparr>)
     = length (wrapped2DArray
         \<lparr>wrapped2DArray = [[]], width = 0, line = 0, word = [97], wordWidth = 8, maxWidth = 0\<rparr>)
   \<and> wrapLoop setupDefaults aLFb (1000, 16, 0) 1 [10, 98]
         \<lparr>wrapped2DArray = [[]], width = 0, line = 0, word = [97], wordWidth = 8, maxWidth = 0\<rparr>
       = Inr (Early [[97, 32]] [0x62])
   \<and> wrapLoop setupDefaults aLFb (1000, 17, 0) 1 [10, 98]
         \<lparr>wrapped2DArray = [[]], width = 0, line = 0, word = [97], wordWidth = 8, maxWidth = 0\<rparr>
       = wrapLoop setupDefaults aLFb (1000, 17, 0) 1 [98]
           \<lparr>wrapped2DArray = [[97, 32], []], width = 16, line = 1, word = [], wordWidth = 0,
              maxWidth = 16\<rparr>
   \<and> wrapLoop setupDefaults hello (30, 32, 0) 1 []
         \<lparr>wrapped2DArray = [[]], width = 0, line = 0, word = [104, 101, 108, 108, 111],
            wordWidth = 40, maxWidth = 0\<rparr>
       = Inr (Early [[]] hello)
   \<and> wrapLoop setupDefaults hello (30, 33, 0) 1 []
         \<lparr>wrapped2DArray = [[]], width = 0, line = 0, word = [104, 101, 108, 108, 111],
            wordWidth = 40, maxWidth = 0\<rparr>
       = Inr (Full [[], [104, 101, 108, 108, 111, 32]] [] 48 32)
   \<and> fst (wrapText setupDefaults fresh hello (30, 33, 0) 1)
       = Inr (Full [[], [104, 101, 108, 108, 111, 32]] [] 48 32)
   \<and> fst (wrapText setupDefaults fresh aLFb (1000, 17, 0) 1)
       = Inr (Full [[97, 32], [98, 32]] [] 32 32)"
proof -
  let ?s = "\<lparr>wrapped2DArray = [[]], width = 0, line = 0, word = [97], wordWidth = 8, maxWidth = 0\<rparr>"
  let ?h = "\<lparr>wrapped2DArray = [[]], width = 0, line = 0, word = [104, 101, 108, 108, 111],
            wordWidth = 40, maxWidth = 0\<rparr>"
  have s: "Suc (line ?s) = length (wrapped2DArray ?s)" by simp
  have h: "Suc (line ?h) = length (wrapped2DArray ?h)" by simp
  have runs: "fst (wrapText setupDefaults fresh hello (30, 33, 0) 1)
       = Inr (Full [[], [104, 101, 108, 108, 111, 32]] [] 48 32)"
    "fst (wrapText setupDefaults fresh aLFb (1000, 17, 0) 1)
       = Inr (Full [[97, 32], [98, 32]] [] 32 32)"
    by code_simp+
  show ?thesis
    using s runs
      wrap_iterations [OF s, of "(1000, 16, 0)" 1 setupDefaults aLFb "[98]"]
      wrap_iterations [OF s, of "(1000, 17, 0)" 1 setupDefaults aLFb "[98]"]
      wrap_iterations [OF h, of "(30, 32, 0)" 1 setupDefaults hello]
      wrap_iterations [OF h, of "(30, 33, 0)" 1 setupDefaults hello]
    by (simp add: Let_def box0_def box1_def setupDefaults_def missingText_drop getHeight_def
        aLFb_def hello_def)
qed

lemma placements_append: "placements (xs @ ys) = placements xs @ placements ys"
  by (simp add: placements_def List.map_filter_def)

lemma placements_tighten: "placements (tighten cx mw mh sz sh) = placements cx"
  by (simp add: tighten_def placements_def List.map_filter_def)

lemma drawLines_placements:
  "placements (drawLines a cx ls i pos color sz shadow) =
     placements cx
     @ map (\<lambda>k. (fst pos, if truthy shadow then snd pos + int k * getHeight a sz
                           else snd pos + int k * 16 * sz))
         [i..<i + length ls]"
proof (induction ls arbitrary: cx i)
  case Nil
  then show ?case by simp
next
  case (Cons l ls)
  have upt: "[i..<i + length (l # ls)] = i # [Suc i..<Suc i + length ls]"
    by (subst upt_rec) simp
  show ?case
    unfolding upt
    by (simp add: Cons.IH drawTextCanvas_eq placements_append Let_def)
       (simp add: placements_def List.map_filter_def)
qed

lemma ctx_remember: "ctx (remember e t) = ctx e"
  by (simp add: remember_def)

text \<open>
  Where \<open>drawText\<close> places the lines: line \<open>i\<close> at \<open>pos.y + i * 16 * scale\<close> in the
  branch without a shadow, and at \<open>pos.y + i * getHeight(scale)\<close> in the branch with
  one.
\<close>

lemma drawText_placements:
  assumes "sz = (case size_arg of None \<Rightarrow> 1 | Some x \<Rightarrow> x)"
    and "fst (wrapText a e t (resolveWrap a surface t sz pos wrap_arg) sz) = Inr r"
  shows "placements (ctx (snd (drawText a e surface t pos color size_arg shadow_arg wrap_arg
                                 tightenCanvas))) =
     placements (ctx e)
     @ map (\<lambda>i. (fst pos, if truthy shadow_arg then snd pos + int i * (sz * charHeight a)
                           else snd pos + int i * 16 * sz))
         [0..<length (lines r)]"
proof -
  let ?wrap = "resolveWrap a surface t sz pos wrap_arg"
  have tr: "truthy (if shadow_arg = Undefined \<or> shadow_arg = Null then JSFalse else shadow_arg)
      = truthy shadow_arg"
    by (auto simp: truthy_def)
  have e1: "ctx (snd (wrapText a e t ?wrap sz)) = ctx e"
    by (simp add: wrapText_def Let_def ctx_remember)
  show ?thesis
    using assms(2) e1
    by (simp add: drawText_def assms(1) [symmetric] split_def Let_def drawLines_placements
        placements_tighten tr getHeight_def)
qed

text \<open>
  Claim C7: the pitch of the lines is \<open>16 * scale\<close> with or without a shadow. The code
  breaks this in the shadow branch, which uses the cell height: with a cell height of 8
  and a shadow, the second line of \<open>"a"\<close>, line feed, \<open>"b"\<close> at scale 1 is placed at
  \<open>y = 8\<close>, where the same call without a shadow places it at \<open>y = 16\<close>.
\<close>

theorem line_pitch_shadow:
  "placements (ctx (snd (drawText (setupDefaults\<lparr>charHeight := 8\<rparr>) fresh (100, 100) aLFb (0, 0)
      (JSString ''blue'') (Some 1) (JSString ''red'') (WrapBox (1000, 1000, 0)) False)))
     = [(0, 0), (0, 8)]
   \<and> placements (ctx (snd (drawText (setupDefaults\<lparr>charHeight := 8\<rparr>) fresh (100, 100) aLFb (0, 0)
      (JSString ''blue'') (Some 1) (JSString ''red'') (WrapBox (1000, 1000, 0)) False)))
     \<noteq> [(0, 0 + 0 * 16 * 1), (0, 0 + 1 * 16 * 1)]
   \<and> placements (ctx (snd (drawText (setupDefaults\<lparr>charHeight := 8\<rparr>) fresh (100, 100) aLFb (0, 0)
      (JSString ''blue'') (Some 1) JSFalse (WrapBox (1000, 1000, 0)) False)))
     = [(0, 0 + 0 * 16 * 1), (0, 0 + 1 * 16 * 1)]"
proof -
  have "placements (ctx (snd (drawText (setupDefaults\<lparr>charHeight := 8\<rparr>) fresh (100, 100) aLFb (0, 0)
      (JSString ''blue'') (Some 1) (JSString ''red'') (WrapBox (1000, 1000, 0)) False)))
     = [(0, 0), (0, 8)]"
    by code_simp
  moreover have "placements (ctx (snd (drawText (setupDefaults\<lparr>charHeight := 8\<rparr>) fresh (100, 100) aLFb (0, 0)
      (JSString ''blue'') (Some 1) JSFalse (WrapBox (1000, 1000, 0)) False)))
     = [(0, 0), (0, 16)]"
    by code_simp
  ultimately show ?thesis by simp
qed

end
